theory Spec2Isabelle
  imports Main
begin

section \<open>JavaScript containers\<close>

text \<open>
  The server keeps two process-wide tables, \<^verbatim>\<open>const users = new Map()\<close> and
  \<^verbatim>\<open>const rooms = new Map()\<close>, the second holding a \<^verbatim>\<open>Set\<close> per room. A JavaScript
  \<^verbatim>\<open>Map\<close> and \<^verbatim>\<open>Set\<close> enumerate in insertion order, and \<^verbatim>\<open>Array.from(...)\<close>,
  \<^verbatim>\<open>find\<close>, \<^verbatim>\<open>filter\<close> and \<^verbatim>\<open>forEach\<close> observe that order, so a \<^verbatim>\<open>Map\<close> is an
  association list and a \<^verbatim>\<open>Set\<close> a list, both in insertion order.
\<close>

type_synonym ('k, 'v) js_map = "('k \<times> 'v) list"
type_synonym 'a js_set = "'a list"

definition js_get :: "('k, 'v) js_map \<Rightarrow> 'k \<Rightarrow> 'v option" where
  "js_get m k = map_of m k"

definition js_has :: "('k, 'v) js_map \<Rightarrow> 'k \<Rightarrow> bool" where
  "js_has m k = (map_of m k \<noteq> None)"

text \<open>\<^verbatim>\<open>m.set(k, v)\<close>: an existing key keeps its position, a new key goes last.\<close>

fun js_set :: "('k, 'v) js_map \<Rightarrow> 'k \<Rightarrow> 'v \<Rightarrow> ('k, 'v) js_map" where
  "js_set [] k v = [(k, v)]"
| "js_set ((k', v') # m) k v =
     (if k' = k then (k, v) # m else (k', v') # js_set m k v)"

definition js_delete :: "('k, 'v) js_map \<Rightarrow> 'k \<Rightarrow> ('k, 'v) js_map" where
  "js_delete m k = filter (\<lambda>kv. fst kv \<noteq> k) m"

definition js_keys :: "('k, 'v) js_map \<Rightarrow> 'k list" where
  "js_keys m = map fst m"

definition js_values :: "('k, 'v) js_map \<Rightarrow> 'v list" where
  "js_values m = map snd m"

definition set_has :: "'a js_set \<Rightarrow> 'a \<Rightarrow> bool" where
  "set_has s x = (x \<in> set s)"

definition set_add :: "'a js_set \<Rightarrow> 'a \<Rightarrow> 'a js_set" where
  "set_add s x = (if x \<in> set s then s else s @ [x])"

definition set_delete :: "'a js_set \<Rightarrow> 'a \<Rightarrow> 'a js_set" where
  "set_delete s x = filter (\<lambda>y. y \<noteq> x) s"

section \<open>Server data\<close>

type_synonym socket_id = string
type_synonym user_id = nat
type_synonym blob = string

text \<open>
  The row \<^verbatim>\<open>userDB.findById\<close> resolves with. The database module is outside the
  modelled files; the fields are those the socket handlers read (\<^verbatim>\<open>id\<close>,
  \<^verbatim>\<open>username\<close>, \<^verbatim>\<open>avatar\<close>). A missing avatar is \<open>None\<close>.
\<close>

record db_user =
  u_id :: user_id
  u_username :: string
  u_avatar :: "string option"

text \<open>
  A registry entry is \<^verbatim>\<open>{...user, socketId: socket.id}\<close>. When \<^verbatim>\<open>findById\<close> resolves
  with \<^verbatim>\<open>undefined\<close> the spread contributes nothing, and the entry has only its
  \<^verbatim>\<open>socketId\<close>: \<open>row = None\<close>.
\<close>

record entry =
  row :: "db_user option"
  socketId :: socket_id

text \<open>
  The \<^verbatim>\<open>avatar\<close> field of an outgoing payload. \<^verbatim>\<open>username.charAt(0).toUpperCase()\<close> is
  kept as the expression it is (\<open>Initial username\<close>): no handler inspects it.
\<close>

datatype avatar = Stored string | Initial string

record message_payload =
  m_id :: nat
  m_author :: string
  m_avatar :: avatar
  m_text :: string
  m_timestamp :: nat

text \<open>The \<^verbatim>\<open>from\<close> object a client sends with \<^verbatim>\<open>initiate-call\<close> and \<^verbatim>\<open>accept-call\<close>.\<close>

record caller =
  c_id :: user_id
  c_username :: "string option"

datatype reject_message = UserOffline | CallDeclined

text \<open>Events the server emits, one constructor per event name and payload shape.\<close>

datatype payload =
    UserListUpdate "entry list"
  | UserJoinedVoice user_id socket_id
  | ExistingVoiceUsers "entry option list"
  | Offer blob socket_id
  | Answer blob socket_id
  | IceCandidate blob socket_id
  | UserLeftVoice socket_id
  | IncomingCall user_id "string option" socket_id "avatar option" string
  | CallAccepted user_id "string option" socket_id
  | CallRejected "socket_id option" reject_message
  | CallEnded socket_id
  | NewDm user_id message_payload
  | DmSent user_id message_payload

text \<open>
  Where an emission is addressed, as the code writes it: \<^verbatim>\<open>io.emit\<close> (every socket),
  \<^verbatim>\<open>io.to(room).emit\<close>, \<^verbatim>\<open>socket.to(room).emit\<close> (the room without the handling
  socket) and \<^verbatim>\<open>socket.emit\<close> (the handling socket alone). A socket id is itself a room
  name in socket.io, holding that one socket.
\<close>

datatype target =
    IoEmit
  | IoTo string
  | SocketTo socket_id string
  | SocketEmit socket_id

datatype emission = Emit target payload

record server =
  users :: "(socket_id, entry) js_map"
  rooms :: "(string, socket_id js_set) js_map"
  pending :: "socket_id list"
  handlers :: "socket_id list"
  closing :: "socket_id list"

definition init :: server where
  "init = \<lparr>users = [], rooms = [], pending = [], handlers = [], closing = []\<rparr>"

section \<open>Socket handlers\<close>

text \<open>
  The handlers that read or write \<^verbatim>\<open>users\<close> or \<^verbatim>\<open>rooms\<close>, or that carry the call and
  signalling events. Each is a function of the server's state and the handling socket's
  id, returning the events it emits in order (and the new state, where it changes it).
  socket.io's own rooms (\<^verbatim>\<open>socket.join\<close>, \<^verbatim>\<open>socket.leave\<close>) belong to the library: an
  emission keeps the address the code gives it.
\<close>

text \<open>\<^verbatim>\<open>Array.from(users.values()).find(u => u.id === to)\<close>\<close>

definition has_id :: "user_id \<Rightarrow> entry \<Rightarrow> bool" where
  "has_id to u = (case row u of None \<Rightarrow> False | Some r \<Rightarrow> u_id r = to)"

definition find_user :: "(socket_id, entry) js_map \<Rightarrow> user_id \<Rightarrow> entry option" where
  "find_user us to = find (has_id to) (js_values us)"

text \<open>\<^verbatim>\<open>socket.on('join-voice-channel', ...)\<close>\<close>

definition members :: "(string, socket_id js_set) js_map \<Rightarrow> string \<Rightarrow> socket_id js_set" where
  "members rs channelName = (case js_get rs channelName of None \<Rightarrow> [] | Some m \<Rightarrow> m)"

definition existingUsers ::
  "server \<Rightarrow> socket_id \<Rightarrow> string \<Rightarrow> entry option list" where
  "existingUsers s sid channelName =
     map (\<lambda>i. js_get (users s) i)
       (filter (\<lambda>i. i \<noteq> sid) (members (rooms s) channelName))"

definition join_voice_channel ::
  "server \<Rightarrow> socket_id \<Rightarrow> string \<Rightarrow> user_id \<Rightarrow> server \<times> emission list" where
  "join_voice_channel s sid channelName userId =
     (let rs1 = (if \<not> js_has (rooms s) channelName
                 then js_set (rooms s) channelName [] else rooms s);
          rs2 = js_set rs1 channelName (set_add (members rs1 channelName) sid);
          s' = s\<lparr>rooms := rs2\<rparr>
      in (s',
          [Emit (SocketTo sid (''voice-'' @ channelName)) (UserJoinedVoice userId sid),
           Emit (SocketEmit sid) (ExistingVoiceUsers (existingUsers s' sid channelName))]))"

text \<open>\<^verbatim>\<open>socket.on('offer' | 'answer' | 'ice-candidate', ...)\<close>\<close>

definition offer :: "socket_id \<Rightarrow> socket_id \<Rightarrow> blob \<Rightarrow> emission list" where
  "offer sid to data = [Emit (SocketTo sid to) (Offer data sid)]"

definition answer :: "socket_id \<Rightarrow> socket_id \<Rightarrow> blob \<Rightarrow> emission list" where
  "answer sid to data = [Emit (SocketTo sid to) (Answer data sid)]"

definition ice_candidate :: "socket_id \<Rightarrow> socket_id \<Rightarrow> blob \<Rightarrow> emission list" where
  "ice_candidate sid to data = [Emit (SocketTo sid to) (IceCandidate data sid)]"

text \<open>
  The three relay handlers as socket.io calls them, with the payload the client sent.
  The payload is \<open>None\<close> when the client sent none (\<^verbatim>\<open>undefined\<close>, or \<^verbatim>\<open>null\<close>): reading
  \<^verbatim>\<open>data.to\<close> then throws a \<^verbatim>\<open>TypeError\<close>, before anything is emitted, and the handler
  has no \<^verbatim>\<open>try\<close> around it. A \<open>Request\<close> of the transition system below is a relay event
  whose payload is there.
\<close>

datatype error = TypeError

record relay_data =
  r_to :: socket_id
  r_body :: blob

definition offer_handler :: "socket_id \<Rightarrow> relay_data option \<Rightarrow> error + emission list" where
  "offer_handler sid data =
     (case data of None \<Rightarrow> Inl TypeError | Some d \<Rightarrow> Inr (offer sid (r_to d) (r_body d)))"

definition answer_handler :: "socket_id \<Rightarrow> relay_data option \<Rightarrow> error + emission list" where
  "answer_handler sid data =
     (case data of None \<Rightarrow> Inl TypeError | Some d \<Rightarrow> Inr (answer sid (r_to d) (r_body d)))"

definition ice_candidate_handler ::
  "socket_id \<Rightarrow> relay_data option \<Rightarrow> error + emission list" where
  "ice_candidate_handler sid data =
     (case data of
        None \<Rightarrow> Inl TypeError
      | Some d \<Rightarrow> Inr (ice_candidate sid (r_to d) (r_body d)))"

text \<open>\<^verbatim>\<open>socket.on('leave-voice-channel', ...)\<close>\<close>

definition leave_voice_channel ::
  "server \<Rightarrow> socket_id \<Rightarrow> string \<Rightarrow> server \<times> emission list" where
  "leave_voice_channel s sid channelName =
     (if js_has (rooms s) channelName
      then (s\<lparr>rooms := js_set (rooms s) channelName
                          (set_delete (members (rooms s) channelName) sid)\<rparr>,
            [Emit (SocketTo sid (''voice-'' @ channelName)) (UserLeftVoice sid)])
      else (s, []))"

text \<open>\<^verbatim>\<open>socket.on('initiate-call', ...)\<close>\<close>

definition initiate_call ::
  "server \<Rightarrow> socket_id \<Rightarrow> user_id \<Rightarrow> string \<Rightarrow> caller \<Rightarrow> emission list" where
  "initiate_call s sid to type from =
     (case find_user (users s) to of
        Some receiverSocket \<Rightarrow>
          [Emit (IoTo (socketId receiverSocket))
             (IncomingCall (c_id from) (c_username from) sid
                (map_option Initial (c_username from)) type)]
      | None \<Rightarrow> [Emit (SocketEmit sid) (CallRejected None UserOffline)])"

text \<open>
  \<^verbatim>\<open>socket.on('accept-call' | 'reject-call' | 'end-call', ...)\<close>. The guard \<^verbatim>\<open>if (to)\<close> of
  \<^verbatim>\<open>end-call\<close> fails for a missing target (\<open>None\<close>) and for the empty string.
\<close>

definition accept_call :: "socket_id \<Rightarrow> socket_id \<Rightarrow> caller \<Rightarrow> emission list" where
  "accept_call sid to from =
     [Emit (IoTo to) (CallAccepted (c_id from) (c_username from) sid)]"

definition reject_call :: "socket_id \<Rightarrow> socket_id \<Rightarrow> emission list" where
  "reject_call sid to = [Emit (IoTo to) (CallRejected (Some sid) CallDeclined)]"

definition end_call :: "socket_id \<Rightarrow> socket_id option \<Rightarrow> emission list" where
  "end_call sid to =
     (case to of
        None \<Rightarrow> []
      | Some t \<Rightarrow> if t = [] then [] else [Emit (IoTo t) (CallEnded sid)])"

text \<open>
  \<^verbatim>\<open>socket.on('send-dm', ...)\<close>, from the point where both database calls have settled.
  \<open>db = None\<close> is any exception inside the \<^verbatim>\<open>try\<close> (a rejected call, or
  \<^verbatim>\<open>sender\<close> undefined); otherwise \<open>db\<close> holds the sender's row, the id of the saved
  message and the value of \<^verbatim>\<open>new Date()\<close>. \<open>userId\<close> is \<^verbatim>\<open>socket.userId\<close>.
\<close>

definition messagePayload :: "db_user \<Rightarrow> nat \<Rightarrow> string \<Rightarrow> nat \<Rightarrow> message_payload" where
  "messagePayload sender saved text now =
     \<lparr>m_id = saved, m_author = u_username sender,
      m_avatar = (case u_avatar sender of
                    None \<Rightarrow> Initial (u_username sender)
                  | Some a \<Rightarrow> if a = [] then Initial (u_username sender) else Stored a),
      m_text = text, m_timestamp = now\<rparr>"

definition send_dm ::
  "server \<Rightarrow> socket_id \<Rightarrow> user_id \<Rightarrow> user_id \<Rightarrow> string \<Rightarrow>
   (db_user \<times> nat \<times> nat) option \<Rightarrow> emission list" where
  "send_dm s sid userId receiverId text db =
     (case db of
        None \<Rightarrow> []
      | Some (sender, saved, now) \<Rightarrow>
          (case find_user (users s) receiverId of
             Some receiverSocket \<Rightarrow>
               [Emit (IoTo (socketId receiverSocket))
                  (NewDm userId (messagePayload sender saved text now))]
           | None \<Rightarrow> [])
          @ [Emit (SocketEmit sid) (DmSent receiverId (messagePayload sender saved text now))])"

text \<open>
  The cleanup of \<^verbatim>\<open>socket.on('disconnect', ...)\<close>:
  \<^verbatim>\<open>rooms.forEach((members, roomName) => { if (members.has(socket.id)) { ... } })\<close>
\<close>

fun leave_rooms ::
  "(string, socket_id js_set) js_map \<Rightarrow> socket_id \<Rightarrow>
   (string, socket_id js_set) js_map \<times> emission list" where
  "leave_rooms [] sid = ([], [])"
| "leave_rooms ((roomName, ms) # rs) sid =
     (let (rs', out) = leave_rooms rs sid
      in if set_has ms sid
         then ((roomName, set_delete ms sid) # rs',
               Emit (IoTo (''voice-'' @ roomName)) (UserLeftVoice sid) # out)
         else ((roomName, ms) # rs', out))"

text \<open>
  \<^verbatim>\<open>io.on('connection', async (socket) => { try { ... } catch { ... } socket.on(...) ... })\<close>
  has two suspension points, \<^verbatim>\<open>await userDB.findById\<close> and
  \<^verbatim>\<open>await userDB.updateStatus\<close>; each stretch between them runs to completion.
  \<open>connect_lookup\<close> is the stretch after \<^verbatim>\<open>findById\<close> settles: a rejection goes to the
  \<^verbatim>\<open>catch\<close> and on to the \<^verbatim>\<open>socket.on\<close> registrations, a result is stored with
  \<^verbatim>\<open>users.set\<close> and the handler suspends again (\<open>pending\<close>). \<open>connect_status\<close> is the
  stretch after \<^verbatim>\<open>updateStatus\<close> settles: the broadcast when it resolved, and
  the \<^verbatim>\<open>socket.on\<close> registrations either way (\<open>handlers\<close>).
\<close>

datatype lookup = LookupFailed | LookupDone "db_user option"

definition connect_lookup :: "server \<Rightarrow> socket_id \<Rightarrow> lookup \<Rightarrow> server \<times> emission list" where
  "connect_lookup s sid l =
     (case l of
        LookupFailed \<Rightarrow> (s\<lparr>handlers := sid # handlers s\<rparr>, [])
      | LookupDone user \<Rightarrow>
          (s\<lparr>users := js_set (users s) sid \<lparr>row = user, socketId = sid\<rparr>,
             pending := sid # pending s\<rparr>, []))"

definition connect_status :: "server \<Rightarrow> socket_id \<Rightarrow> bool \<Rightarrow> server \<times> emission list" where
  "connect_status s sid resolved =
     (if sid \<in> set (pending s)
      then (s\<lparr>pending := removeAll sid (pending s), handlers := sid # handlers s\<rparr>,
            if resolved then [Emit IoEmit (UserListUpdate (js_values (users s)))] else [])
      else (s, []))"

text \<open>
  \<^verbatim>\<open>socket.on('disconnect', async () => ...)\<close> suspends once, at
  \<^verbatim>\<open>await userDB.updateStatus(socket.userId, 'Offline')\<close>, whose rejection is caught.
  \<open>disconnect\<close> is the stretch before it (the registry lookup that guards the whole
  body), \<open>disconnect_status\<close> the stretch after it (rooms, registry, broadcast). A
  socket without registered handlers has no listener for the event.
\<close>

definition disconnect :: "server \<Rightarrow> socket_id \<Rightarrow> server \<times> emission list" where
  "disconnect s sid =
     (if sid \<in> set (handlers s)
      then (s\<lparr>handlers := removeAll sid (handlers s),
               closing := (if js_has (users s) sid then sid # closing s else closing s)\<rparr>, [])
      else (s, []))"

definition disconnect_status :: "server \<Rightarrow> socket_id \<Rightarrow> server \<times> emission list" where
  "disconnect_status s sid =
     (if sid \<in> set (closing s)
      then (let (rs, out) = leave_rooms (rooms s) sid;
                us = js_delete (users s) sid
            in (s\<lparr>users := us, rooms := rs, closing := removeAll sid (closing s)\<rparr>,
                out @ [Emit IoEmit (UserListUpdate (js_values us))]))
      else (s, []))"

section \<open>The server as a transition system\<close>

datatype request =
    JoinVoiceChannel string user_id
  | OfferReq socket_id blob
  | AnswerReq socket_id blob
  | IceCandidateReq socket_id blob
  | LeaveVoiceChannel string
  | InitiateCall user_id string caller
  | AcceptCall socket_id caller
  | RejectCall socket_id
  | EndCall "socket_id option"

text \<open>
  One event is one uninterrupted stretch of a handler. A request is handled only on a
  socket whose \<^verbatim>\<open>socket.on\<close> registrations have run. \<open>DmSettled\<close> is the stretch of
  \<^verbatim>\<open>send-dm\<close> after its database calls.
\<close>

datatype event =
    ConnectLookup socket_id lookup
  | ConnectStatus socket_id bool
  | Request socket_id request
  | DmSettled socket_id user_id user_id string "(db_user \<times> nat \<times> nat) option"
  | Disconnect socket_id
  | DisconnectStatus socket_id

fun handle :: "server \<Rightarrow> socket_id \<Rightarrow> request \<Rightarrow> server \<times> emission list" where
  "handle s sid (JoinVoiceChannel channelName userId) =
     join_voice_channel s sid channelName userId"
| "handle s sid (OfferReq to data) = (s, offer sid to data)"
| "handle s sid (AnswerReq to data) = (s, answer sid to data)"
| "handle s sid (IceCandidateReq to data) = (s, ice_candidate sid to data)"
| "handle s sid (LeaveVoiceChannel channelName) = leave_voice_channel s sid channelName"
| "handle s sid (InitiateCall to type from) = (s, initiate_call s sid to type from)"
| "handle s sid (AcceptCall to from) = (s, accept_call sid to from)"
| "handle s sid (RejectCall to) = (s, reject_call sid to)"
| "handle s sid (EndCall to) = (s, end_call sid to)"

fun step :: "server \<Rightarrow> event \<Rightarrow> server \<times> emission list" where
  "step s (ConnectLookup sid l) = connect_lookup s sid l"
| "step s (ConnectStatus sid resolved) = connect_status s sid resolved"
| "step s (Request sid r) = (if sid \<in> set (handlers s) then handle s sid r else (s, []))"
| "step s (DmSettled sid userId receiverId text db) =
     (s, send_dm s sid userId receiverId text db)"
| "step s (Disconnect sid) = disconnect s sid"
| "step s (DisconnectStatus sid) = disconnect_status s sid"

fun run :: "server \<Rightarrow> event list \<Rightarrow> server \<times> emission list" where
  "run s [] = (s, [])"
| "run s (e # es) =
     (let (s1, out1) = step s e; (s2, out2) = run s1 es in (s2, out1 @ out2))"

text \<open>What a trace says about its connections: the sockets whose \<^verbatim>\<open>findById\<close> settled, and
  those for which it was rejected. socket.io gives every connection an id of its own.\<close>

fun connected :: "event list \<Rightarrow> socket_id list" where
  "connected [] = []"
| "connected (ConnectLookup sid l # es) = sid # connected es"
| "connected (e # es) = connected es"

fun lookup_failed :: "event list \<Rightarrow> socket_id list" where
  "lookup_failed [] = []"
| "lookup_failed (ConnectLookup sid LookupFailed # es) = sid # lookup_failed es"
| "lookup_failed (e # es) = lookup_failed es"

definition fresh_ids :: "event list \<Rightarrow> bool" where
  "fresh_ids t = distinct (connected t)"

text \<open>The payloads of the \<^verbatim>\<open>user-list-update\<close> broadcasts among some emissions.\<close>

fun online_lists :: "emission list \<Rightarrow> entry list list" where
  "online_lists [] = []"
| "online_lists (Emit IoEmit (UserListUpdate l) # out) = l # online_lists out"
| "online_lists (e # out) = online_lists out"

fun is_call_ended :: "emission \<Rightarrow> bool" where
  "is_call_ended (Emit t (CallEnded sid)) = True"
| "is_call_ended e = False"

text \<open>
  Whether an emission names the socket \<open>x\<close> as a destination by its id: \<^verbatim>\<open>io.emit\<close>
  reaches every socket, \<^verbatim>\<open>io.to(x)\<close> reaches \<open>x\<close>, \<^verbatim>\<open>socket.to(x)\<close> reaches \<open>x\<close> from any
  other socket, and \<^verbatim>\<open>socket.emit\<close> reaches the handling socket.
\<close>

fun addressed_to :: "socket_id \<Rightarrow> emission \<Rightarrow> bool" where
  "addressed_to x (Emit IoEmit p) = True"
| "addressed_to x (Emit (IoTo room) p) = (room = x)"
| "addressed_to x (Emit (SocketTo sid room) p) = (room = x \<and> sid \<noteq> x)"
| "addressed_to x (Emit (SocketEmit sid) p) = (sid = x)"

section \<open>The client's peer links\<close>

text \<open>
  \<^verbatim>\<open>let peerConnections = {}\<close> in the browser script maps a remote socket id to an
  \<^verbatim>\<open>RTCPeerConnection\<close>. The browser object is outside the script; what the script
  decides is which of its methods are called, on which link and in which order, so a
  link is the list of calls made on it so far.
\<close>

datatype pc_call = CreateOffer | SetRemoteDescription blob | AddIceCandidate blob

type_synonym client = "(socket_id, pc_call list) js_map"

definition invoke :: "client \<Rightarrow> socket_id \<Rightarrow> pc_call \<Rightarrow> client" where
  "invoke pcs remote c =
     (case js_get pcs remote of None \<Rightarrow> pcs | Some calls \<Rightarrow> js_set pcs remote (calls @ [c]))"

text \<open>\<^verbatim>\<open>function createPeerConnection(remoteSocketId, isInitiator)\<close>\<close>

definition createPeerConnection :: "client \<Rightarrow> socket_id \<Rightarrow> bool \<Rightarrow> client" where
  "createPeerConnection pcs remoteSocketId isInitiator =
     (if js_has pcs remoteSocketId then pcs
      else js_set pcs remoteSocketId (if isInitiator then [CreateOffer] else []))"

text \<open>
  \<^verbatim>\<open>socket.on('offer', ...)\<close> up to its first \<^verbatim>\<open>await\<close>, the call of
  \<^verbatim>\<open>setRemoteDescription\<close>; \<^verbatim>\<open>socket.on('answer', ...)\<close> and
  \<^verbatim>\<open>socket.on('ice-candidate', ...)\<close>. The guard \<^verbatim>\<open>if (pc && data.candidate)\<close> of the
  last fails for every falsy candidate: a missing or \<^verbatim>\<open>null\<close> one (\<open>None\<close>) and the empty
  string.
\<close>

definition on_offer :: "client \<Rightarrow> socket_id \<Rightarrow> blob \<Rightarrow> client" where
  "on_offer pcs from data =
     invoke (if \<not> js_has pcs from then createPeerConnection pcs from False else pcs)
       from (SetRemoteDescription data)"

definition on_answer :: "client \<Rightarrow> socket_id \<Rightarrow> blob \<Rightarrow> client" where
  "on_answer pcs from data =
     (if js_has pcs from then invoke pcs from (SetRemoteDescription data) else pcs)"

definition on_ice_candidate :: "client \<Rightarrow> socket_id \<Rightarrow> blob option \<Rightarrow> client" where
  "on_ice_candidate pcs from candidate =
     (case candidate of
        None \<Rightarrow> pcs
      | Some c \<Rightarrow>
          if js_has pcs from \<and> c \<noteq> [] then invoke pcs from (AddIceCandidate c) else pcs)"

text \<open>
  \<^verbatim>\<open>socket.on('user-left-voice', ...)\<close> and \<^verbatim>\<open>socket.on('call-ended', ...)\<close> close the
  link and delete it from \<^verbatim>\<open>peerConnections\<close>.
\<close>

definition drop_link :: "client \<Rightarrow> socket_id \<Rightarrow> client" where
  "drop_link pcs remote = (if js_has pcs remote then js_delete pcs remote else pcs)"

datatype signal =
    OnUserJoinedVoice socket_id
  | OnExistingVoiceUsers "socket_id list"
  | OnUserLeftVoice socket_id
  | OnCallAccepted socket_id
  | OnCallEnded socket_id
  | OnOffer socket_id blob
  | OnAnswer socket_id blob
  | OnIceCandidate socket_id "blob option"

fun receive :: "client \<Rightarrow> signal \<Rightarrow> client" where
  "receive pcs (OnUserJoinedVoice remote) = createPeerConnection pcs remote True"
| "receive pcs (OnExistingVoiceUsers remotes) =
     foldl (\<lambda>p remote. createPeerConnection p remote False) pcs remotes"
| "receive pcs (OnUserLeftVoice remote) = drop_link pcs remote"
| "receive pcs (OnCallEnded remote) = drop_link pcs remote"
| "receive pcs (OnCallAccepted remote) =
     (if \<not> js_has pcs remote then createPeerConnection pcs remote True else pcs)"
| "receive pcs (OnOffer from data) = on_offer pcs from data"
| "receive pcs (OnAnswer from data) = on_answer pcs from data"
| "receive pcs (OnIceCandidate from candidate) = on_ice_candidate pcs from candidate"

definition receive_all :: "client \<Rightarrow> signal list \<Rightarrow> client" where
  "receive_all pcs sigs = foldl receive pcs sigs"

text \<open>The candidates handed to \<^verbatim>\<open>addIceCandidate\<close> on the link to \<open>remote\<close>.\<close>

definition candidates :: "client \<Rightarrow> socket_id \<Rightarrow> blob list" where
  "candidates pcs remote =
     concat (map (\<lambda>c. case c of AddIceCandidate b \<Rightarrow> [b] | _ \<Rightarrow> [])
       (case js_get pcs remote of None \<Rightarrow> [] | Some calls \<Rightarrow> calls))"

section \<open>Example data\<close>

definition ann :: db_user where
  "ann = \<lparr>u_id = 1, u_username = ''ann'', u_avatar = None\<rparr>"

definition bob :: db_user where
  "bob = \<lparr>u_id = 2, u_username = ''bob'', u_avatar = Some ''b.png''\<rparr>"

definition online :: "socket_id \<Rightarrow> db_user \<Rightarrow> event list" where
  "online sid u = [ConnectLookup sid (LookupDone (Some u)), ConnectStatus sid True]"

definition ann_caller :: caller where
  "ann_caller = \<lparr>c_id = 1, c_username = Some ''ann''\<rparr>"

definition bob_caller :: caller where
  "bob_caller = \<lparr>c_id = 2, c_username = Some ''bob''\<rparr>"

definition ann_entry :: "socket_id \<Rightarrow> entry" where
  "ann_entry sid = \<lparr>row = Some ann, socketId = sid\<rparr>"

definition bob_entry :: "socket_id \<Rightarrow> entry" where
  "bob_entry sid = \<lparr>row = Some bob, socketId = sid\<rparr>"

text \<open>Ann on socket \<open>a\<close> and Bob on socket \<open>b\<close>, both registered, handlers installed.\<close>

definition two_online :: server where
  "two_online =
     \<lparr>users = [(''a'', ann_entry ''a''), (''b'', bob_entry ''b'')], rooms = [],
      pending = [], handlers = [''b'', ''a''], closing = []\<rparr>"

text \<open>Ann and Bob share the rooms \<open>r1\<close> and \<open>r2\<close>.\<close>

definition in_rooms :: server where
  "in_rooms = two_online\<lparr>rooms := [(''r1'', [''a'', ''b'']), (''r2'', [''b'', ''a''])]\<rparr>"

text \<open>
  Room \<open>r\<close> holds socket \<open>x\<close>, whose user lookup was rejected when it connected, and
  Bob.
\<close>

definition with_stranger :: server where
  "with_stranger =
     two_online\<lparr>rooms := [(''r'', [''x'', ''b''])], handlers := [''x'', ''b'', ''a'']\<rparr>"

section \<open>Invariants of the tables\<close>

text \<open>
  The registry has one entry per key, and the entry stored under a socket id carries
  that id as its \<^verbatim>\<open>socketId\<close>.
\<close>

definition users_wf :: "server \<Rightarrow> bool" where
  "users_wf s =
     (distinct (js_keys (users s)) \<and> list_all (\<lambda>ke. socketId (snd ke) = fst ke) (users s))"

text \<open>
  How rooms, suspended handlers and installed handlers relate to the registry, given the
  sockets \<open>failed\<close> whose lookup was rejected and the sockets \<open>seen\<close> connecting so far.
\<close>

definition consistent :: "socket_id list \<Rightarrow> socket_id list \<Rightarrow> server \<Rightarrow> bool" where
  "consistent failed seen s =
     (list_all (\<lambda>cm. set (snd cm) \<subseteq> set (js_keys (users s)) \<union> set failed) (rooms s)
      \<and> set (handlers s) \<subseteq> set (js_keys (users s)) \<union> set failed
      \<and> set (pending s) \<subseteq> set (js_keys (users s))
      \<and> set (handlers s) \<inter> set (closing s) = {}
      \<and> set (pending s) \<inter> set (closing s) = {}
      \<and> set (handlers s) \<inter> set (pending s) = {}
      \<and> set (handlers s) \<union> set (pending s) \<union> set (closing s) \<subseteq> set seen)"

section \<open>Facts about the containers\<close>

lemma js_get_js_set_same: "js_get (js_set m k v) k = Some v"
  by (induction m) (auto simp: js_get_def)

lemma js_get_js_set_other: "k' \<noteq> k \<Longrightarrow> js_get (js_set m k v) k' = js_get m k'"
  by (induction m) (auto simp: js_get_def)

lemma js_has_js_set: "js_has (js_set m k v) k' = (k' = k \<or> js_has m k')"
  by (induction m k v rule: js_set.induct) (auto simp: js_has_def)

lemma js_set_js_set: "js_set (js_set m k v) k w = js_set m k w"
  by (induction m) auto

text \<open>A new key is appended, an old key keeps its place: list order is insertion order.\<close>

lemma js_set_new: "\<not> js_has m k \<Longrightarrow> js_set m k v = m @ [(k, v)]"
  by (induction m) (auto simp: js_has_def split: if_splits)

lemma js_keys_js_set_old: "js_has m k \<Longrightarrow> js_keys (js_set m k v) = js_keys m"
  by (induction m) (auto simp: js_has_def js_keys_def split: if_splits)

lemma js_has_get: "js_has m k = (js_get m k \<noteq> None)"
  by (simp add: js_has_def js_get_def)

lemma js_has_keys: "js_has m k = (k \<in> set (js_keys m))"
  by (simp add: js_has_def js_keys_def map_of_eq_None_iff)

lemma js_keys_js_set: "set (js_keys (js_set m k v)) = insert k (set (js_keys m))"
  by (induction m k v rule: js_set.induct) (auto simp: js_keys_def)

lemma members_js_set_same: "members (js_set rs c ms) c = ms"
  by (simp add: members_def js_get_js_set_same)

lemma members_js_set_other: "c' \<noteq> c \<Longrightarrow> members (js_set rs c ms) c' = members rs c'"
  by (simp add: members_def js_get_js_set_other)

lemma members_absent: "\<not> js_has rs c \<Longrightarrow> members rs c = []"
  by (simp add: members_def js_has_def js_get_def)

lemma set_add_idem: "set_add (set_add ms x) x = set_add ms x"
  by (simp add: set_add_def)

lemma others_set_add: "filter (\<lambda>i. i \<noteq> x) (set_add ms x) = filter (\<lambda>i. i \<noteq> x) ms"
  by (simp add: set_add_def)

section \<open>Room membership\<close>

lemma join_rooms:
  "rooms (fst (join_voice_channel s sid c u)) =
     js_set (rooms s) c (set_add (members (rooms s) c) sid)"
  by (simp add: join_voice_channel_def Let_def js_set_js_set members_js_set_same members_absent)

lemma join_members:
  "members (rooms (fst (join_voice_channel s sid c u))) c = set_add (members (rooms s) c) sid"
  by (simp add: join_rooms members_js_set_same)

lemma join_users: "users (fst (join_voice_channel s sid c u)) = users s"
  by (simp add: join_voice_channel_def Let_def)

lemma join_emits:
  "snd (join_voice_channel s sid c u) =
     [Emit (SocketTo sid (''voice-'' @ c)) (UserJoinedVoice u sid),
      Emit (SocketEmit sid) (ExistingVoiceUsers
        (map (js_get (users s))
           (filter (\<lambda>i. i \<noteq> sid) (members (rooms (fst (join_voice_channel s sid c u))) c))))]"
proof -
  have "existingUsers (fst (join_voice_channel s sid c u)) sid c =
      map (js_get (users s))
        (filter (\<lambda>i. i \<noteq> sid) (members (rooms (fst (join_voice_channel s sid c u))) c))"
    by (simp add: existingUsers_def join_users)
  then show ?thesis
    by (simp add: join_voice_channel_def Let_def)
qed

lemma users_wf_get: "users_wf s \<Longrightarrow> js_get (users s) i = Some e \<Longrightarrow> socketId e = i"
  by (auto simp: users_wf_def js_get_def list_all_iff dest!: map_of_SomeD)

lemma users_wf_handles:
  "users_wf s \<Longrightarrow>
   map (map_option socketId) (map (js_get (users s)) is) =
     map (\<lambda>i. if js_has (users s) i then Some i else None) is"
  by (induction "is") (auto simp: js_has_get dest: users_wf_get)

text \<open>
  C6, as the code has it. Joining a room again with the same handle leaves the table of
  rooms as the first join left it. A join puts a new handle last in the room's member
  sequence and leaves the sequence alone when the handle is already in it, so the
  sequence is in join order. The \<^verbatim>\<open>existing-voice-users\<close> event sent to the joining
  socket has one element for each current member of the room other than the joining
  handle, in that order, and none for the handle itself; a second join is sent the same
  list. The element is what the registry holds under the member's handle: with a well
  formed registry, as it is in every reachable state, the member's entry, carrying the
  member's handle, when the member is registered, and \<^verbatim>\<open>undefined\<close> when it is not.
\<close>

theorem join_twice_same_members_others_listed:
  "rooms (fst (join_voice_channel (fst (join_voice_channel s sid c u)) sid c u')) =
     rooms (fst (join_voice_channel s sid c u))
   \<and> members (rooms (fst (join_voice_channel s sid c u))) c =
       (if sid \<in> set (members (rooms s) c) then members (rooms s) c
        else members (rooms s) c @ [sid])
   \<and> snd (join_voice_channel s sid c u) =
       [Emit (SocketTo sid (''voice-'' @ c)) (UserJoinedVoice u sid),
        Emit (SocketEmit sid) (ExistingVoiceUsers
          (map (js_get (users s))
             (filter (\<lambda>i. i \<noteq> sid)
                (members (rooms (fst (join_voice_channel s sid c u))) c))))]
   \<and> filter (\<lambda>i. i \<noteq> sid) (members (rooms (fst (join_voice_channel s sid c u))) c) =
       filter (\<lambda>i. i \<noteq> sid) (members (rooms s) c)
   \<and> sid \<notin> set (filter (\<lambda>i. i \<noteq> sid)
                    (members (rooms (fst (join_voice_channel s sid c u))) c))
   \<and> snd (join_voice_channel (fst (join_voice_channel s sid c u)) sid c u) =
       snd (join_voice_channel s sid c u)
   \<and> (users_wf s \<longrightarrow>
        map (map_option socketId)
          (map (js_get (users s))
             (filter (\<lambda>i. i \<noteq> sid)
                (members (rooms (fst (join_voice_channel s sid c u))) c))) =
        map (\<lambda>i. if js_has (users s) i then Some i else None)
          (filter (\<lambda>i. i \<noteq> sid)
             (members (rooms (fst (join_voice_channel s sid c u))) c)))"
proof -
  let ?s1 = "fst (join_voice_channel s sid c u)"
  have m1: "members (rooms ?s1) c = set_add (members (rooms s) c) sid"
    by (rule join_members)
  have a: "rooms (fst (join_voice_channel ?s1 sid c u')) = rooms ?s1"
    by (simp add: join_rooms[of ?s1] m1 set_add_idem) (simp add: join_rooms js_set_js_set)
  have b: "members (rooms ?s1) c =
       (if sid \<in> set (members (rooms s) c) then members (rooms s) c
        else members (rooms s) c @ [sid])"
    by (simp add: m1 set_add_def)
  have d: "filter (\<lambda>i. i \<noteq> sid) (members (rooms ?s1) c) =
       filter (\<lambda>i. i \<noteq> sid) (members (rooms s) c)"
    by (simp add: m1 others_set_add)
  have m2: "members (rooms (fst (join_voice_channel ?s1 sid c u))) c = members (rooms ?s1) c"
    by (simp add: join_members[of ?s1] m1 set_add_idem)
  have e: "snd (join_voice_channel ?s1 sid c u) = snd (join_voice_channel s sid c u)"
    by (simp add: join_emits[of ?s1] join_emits[of s] m2 join_users)
  have f: "sid \<notin> set (filter (\<lambda>i. i \<noteq> sid) (members (rooms ?s1) c))"
    by simp
  have g: "users_wf s \<longrightarrow>
        map (map_option socketId)
          (map (js_get (users s)) (filter (\<lambda>i. i \<noteq> sid) (members (rooms ?s1) c))) =
        map (\<lambda>i. if js_has (users s) i then Some i else None)
          (filter (\<lambda>i. i \<noteq> sid) (members (rooms ?s1) c))"
    by (rule impI) (rule users_wf_handles)
  show ?thesis
    by (intro conjI a b join_emits d f e g)
qed

theorem join_twice_same_members_others_listed_witness:
  "users_wf with_stranger
   \<and> rooms (fst (join_voice_channel (fst (join_voice_channel with_stranger ''a'' ''r'' 1))
        ''a'' ''r'' 1)) =
       rooms (fst (join_voice_channel with_stranger ''a'' ''r'' 1))
   \<and> members (rooms (fst (join_voice_channel with_stranger ''a'' ''r'' 1))) ''r'' =
       [''x'', ''b'', ''a'']
   \<and> snd (join_voice_channel with_stranger ''a'' ''r'' 1) =
       [Emit (SocketTo ''a'' ''voice-r'') (UserJoinedVoice 1 ''a''),
        Emit (SocketEmit ''a'') (ExistingVoiceUsers [None, Some (bob_entry ''b'')])]
   \<and> map (map_option socketId) [None, Some (bob_entry ''b'')] = [None, Some ''b'']"
proof -
  have wf: "users_wf with_stranger"
    by (simp add: users_wf_def with_stranger_def two_online_def js_keys_def ann_entry_def
        bob_entry_def)
  have m: "members (rooms with_stranger) ''r'' = [''x'', ''b'']"
    by (simp add: with_stranger_def members_def js_get_def)
  have u: "js_get (users with_stranger) ''x'' = None"
    "js_get (users with_stranger) ''b'' = Some (bob_entry ''b'')"
    "\<not> js_has (users with_stranger) ''x''" "js_has (users with_stranger) ''b''"
    by (simp_all add: with_stranger_def two_online_def js_get_def js_has_def)
  note r = join_twice_same_members_others_listed[of with_stranger "''a''" "''r''" 1 1]
  have m1: "members (rooms (fst (join_voice_channel with_stranger ''a'' ''r'' 1))) ''r'' =
      [''x'', ''b'', ''a'']"
    using r[THEN conjunct2, THEN conjunct1] by (simp add: m)
  have out: "snd (join_voice_channel with_stranger ''a'' ''r'' 1) =
       [Emit (SocketTo ''a'' ''voice-r'') (UserJoinedVoice 1 ''a''),
        Emit (SocketEmit ''a'') (ExistingVoiceUsers [None, Some (bob_entry ''b'')])]"
    using r[THEN conjunct2, THEN conjunct2, THEN conjunct1] unfolding m1 by (simp add: u)
  have h: "map (map_option socketId) [None, Some (bob_entry ''b'')] = [None, Some ''b'']"
    using r[THEN conjunct2, THEN conjunct2, THEN conjunct2, THEN conjunct2, THEN conjunct2,
        THEN conjunct2, THEN mp, OF wf]
    unfolding m1 by (simp add: u)
  show ?thesis
    by (intro conjI wf r[THEN conjunct1] m1 out h)
qed

text \<open>
  C6 as the specification states it fails: the user lookup of connection \<open>x\<close> is
  rejected and \<open>x\<close> joins room \<open>r\<close>; then Ann connects on socket \<open>a\<close> and joins \<open>r\<close>.
  The other current member is \<open>x\<close>, but the list sent to \<open>a\<close> holds \<^verbatim>\<open>undefined\<close> in
  its place and names no member.
\<close>

theorem existing_users_undefined_counterexample:
  "snd (run init ([ConnectLookup ''x'' LookupFailed, Request ''x'' (JoinVoiceChannel ''r'' 9)]
         @ online ''a'' ann @ [Request ''a'' (JoinVoiceChannel ''r'' 1)])) =
     [Emit (SocketTo ''x'' ''voice-r'') (UserJoinedVoice 9 ''x''),
      Emit (SocketEmit ''x'') (ExistingVoiceUsers []),
      Emit IoEmit (UserListUpdate [ann_entry ''a'']),
      Emit (SocketTo ''a'' ''voice-r'') (UserJoinedVoice 1 ''a''),
      Emit (SocketEmit ''a'') (ExistingVoiceUsers [None])]
   \<and> members (rooms (fst (run init
         ([ConnectLookup ''x'' LookupFailed, Request ''x'' (JoinVoiceChannel ''r'' 9)]
         @ online ''a'' ann @ [Request ''a'' (JoinVoiceChannel ''r'' 1)])))) ''r'' =
     [''x'', ''a'']"
  by code_simp

lemma leave_members:
  "members (rooms (fst (leave_voice_channel s sid c))) c = set_delete (members (rooms s) c) sid"
  by (simp add: leave_voice_channel_def members_js_set_same members_absent set_delete_def)

lemma leave_keys: "js_keys (rooms (fst (leave_voice_channel s sid c))) = js_keys (rooms s)"
  by (simp add: leave_voice_channel_def js_keys_js_set_old)

text \<open>
  C7, as the code has it. Leaving a room removes the handle from the room's member
  sequence and keeps the other members in their order. The table keeps exactly the room
  names it had: a room is never removed, so a room whose last member has left stays in
  the table with no members.
\<close>

theorem leave_removes_member_keeps_room:
  "members (rooms (fst (leave_voice_channel s sid c))) c =
     filter (\<lambda>i. i \<noteq> sid) (members (rooms s) c)
   \<and> sid \<notin> set (members (rooms (fst (leave_voice_channel s sid c))) c)
   \<and> js_keys (rooms (fst (leave_voice_channel s sid c))) = js_keys (rooms s)
   \<and> js_has (rooms (fst (leave_voice_channel s sid c))) c = js_has (rooms s) c"
  by (simp add: leave_members leave_keys js_has_keys) (simp add: set_delete_def)

text \<open>
  C7 as the specification states it fails: socket \<open>a\<close> is the only member of room
  \<open>r\<close> and leaves; the room is still in the table, now empty.
\<close>

theorem leave_prunes_empty_room_counterexample:
  "step (two_online\<lparr>rooms := [(''r'', [''a''])]\<rparr>) (Request ''a'' (LeaveVoiceChannel ''r'')) =
     (two_online\<lparr>rooms := [(''r'', [])]\<rparr>,
      [Emit (SocketTo ''a'' ''voice-r'') (UserLeftVoice ''a'')])
   \<and> js_has (rooms (two_online\<lparr>rooms := [(''r'', [])]\<rparr>)) ''r''"
  by (simp add: two_online_def leave_voice_channel_def js_has_def members_def js_get_def
      set_delete_def)

section \<open>Calls, direct messages and the relay\<close>

lemma two_online_reachable: "fst (run init (online ''a'' ann @ online ''b'' bob)) = two_online"
  by (simp add: online_def init_def two_online_def connect_lookup_def connect_status_def
      ann_entry_def bob_entry_def)

lemma find_user_None: "find_user us to = None \<longleftrightarrow> \<not> list_ex (has_id to) (js_values us)"
  by (auto simp: find_user_def find_None_iff list_ex_iff)


text \<open>
  C4, as the code has it. When no registry entry carries the callee's user id,
  \<^verbatim>\<open>initiate-call\<close> emits one event, \<^verbatim>\<open>call-rejected\<close> with the user-offline message, to
  the calling socket, and no \<^verbatim>\<open>incoming-call\<close>. When some entry carries it, the handler
  emits one event, \<^verbatim>\<open>incoming-call\<close> with the caller's id, name and socket id and the
  call type, addressed to the socket id of a registry entry with that user id. Nothing
  is then addressed to the calling socket, unless that entry is the calling socket's
  own.
\<close>

theorem initiate_call_offline_or_incoming:
  "(\<not> list_ex (has_id to) (js_values (users s)) \<longrightarrow>
      initiate_call s sid to type from = [Emit (SocketEmit sid) (CallRejected None UserOffline)])
   \<and> (list_ex (has_id to) (js_values (users s)) \<longrightarrow>
      (\<exists>r. r \<in> set (js_values (users s)) \<and> has_id to r
         \<and> initiate_call s sid to type from =
             [Emit (IoTo (socketId r))
                (IncomingCall (c_id from) (c_username from) sid
                   (map_option Initial (c_username from)) type)]
         \<and> (socketId r \<noteq> sid \<longrightarrow>
              \<not> list_ex (addressed_to sid) (initiate_call s sid to type from))))"
proof (cases "find_user (users s) to")
  case None
  then have "\<not> list_ex (has_id to) (js_values (users s))"
    by (simp add: find_user_None)
  then show ?thesis
    using None by (simp add: initiate_call_def)
next
  case (Some r)
  then have "r \<in> set (js_values (users s)) \<and> has_id to r"
    by (auto simp: find_user_def find_Some_iff)
  then show ?thesis
    using Some by (auto simp: initiate_call_def list_ex_iff)
qed

theorem initiate_call_offline_or_incoming_witness:
  "\<not> list_ex (has_id 3) (js_values (users two_online))
   \<and> initiate_call two_online ''a'' 3 ''video'' ann_caller =
       [Emit (SocketEmit ''a'') (CallRejected None UserOffline)]
   \<and> list_ex (has_id 2) (js_values (users two_online))
   \<and> initiate_call two_online ''a'' 2 ''video'' ann_caller =
       [Emit (IoTo ''b'')
          (IncomingCall 1 (Some ''ann'') ''a'' (Some (Initial ''ann'')) ''video'')]
   \<and> \<not> list_ex (addressed_to ''a'') (initiate_call two_online ''a'' 2 ''video'' ann_caller)"
proof -
  have off: "\<not> list_ex (has_id 3) (js_values (users two_online))"
    by (simp add: two_online_def js_values_def has_id_def ann_entry_def bob_entry_def
        ann_def bob_def)
  have on: "list_ex (has_id 2) (js_values (users two_online))"
    by (simp add: two_online_def js_values_def has_id_def ann_entry_def bob_entry_def
        ann_def bob_def)
  from initiate_call_offline_or_incoming[of 3 two_online "''a''" "''video''" ann_caller] off
  have r1: "initiate_call two_online ''a'' 3 ''video'' ann_caller =
       [Emit (SocketEmit ''a'') (CallRejected None UserOffline)]"
    by blast
  from initiate_call_offline_or_incoming[of 2 two_online "''a''" "''video''" ann_caller] on
  obtain r where r: "r \<in> set (js_values (users two_online))" "has_id 2 r"
    "initiate_call two_online ''a'' 2 ''video'' ann_caller =
       [Emit (IoTo (socketId r))
          (IncomingCall (c_id ann_caller) (c_username ann_caller) ''a''
             (map_option Initial (c_username ann_caller)) ''video'')]"
    "socketId r \<noteq> ''a'' \<longrightarrow>
       \<not> list_ex (addressed_to ''a'') (initiate_call two_online ''a'' 2 ''video'' ann_caller)"
    by blast
  from r(1,2) have b: "socketId r = ''b''"
    by (auto simp: two_online_def js_values_def has_id_def ann_entry_def bob_entry_def
        ann_def bob_def)
  with r(3) have r2: "initiate_call two_online ''a'' 2 ''video'' ann_caller =
       [Emit (IoTo ''b'')
          (IncomingCall 1 (Some ''ann'') ''a'' (Some (Initial ''ann'')) ''video'')]"
    by (simp add: ann_caller_def)
  from r(4) b
  have r3: "\<not> list_ex (addressed_to ''a'') (initiate_call two_online ''a'' 2 ''video'' ann_caller)"
    by simp
  show ?thesis using off on r1 r2 r3 by (intro conjI)
qed

text \<open>
  C4 as the specification states it fails: Ann, on socket \<open>a\<close>, calls her own user id.
  The callee has a registered connection, which is \<open>a\<close>, and the \<^verbatim>\<open>incoming-call\<close> goes
  to \<open>a\<close>: the caller does receive an event.
\<close>

theorem call_to_self_counterexample:
  "list_ex (has_id 1) (js_values (users two_online))
   \<and> initiate_call two_online ''a'' 1 ''video'' ann_caller =
       [Emit (IoTo ''a'')
          (IncomingCall 1 (Some ''ann'') ''a'' (Some (Initial ''ann'')) ''video'')]
   \<and> list_ex (addressed_to ''a'') (initiate_call two_online ''a'' 1 ''video'' ann_caller)"
  by (simp add: two_online_def js_values_def has_id_def ann_entry_def bob_entry_def
      ann_def bob_def initiate_call_def find_user_def ann_caller_def)




text \<open>
  C5, as the code has it. The relay never consults the registry. Given a payload, each
  of the three relay handlers emits one event of its own name addressed to the payload's
  target, registered or not, carrying the payload's body unchanged and the handling
  socket's id as \<^verbatim>\<open>from\<close>, and nothing to the sender. On a socket with its handlers
  installed such a request leaves the server's state as it was.
\<close>

theorem relay_forwards_unchecked:
  "offer_handler sid (Some d) = Inr [Emit (SocketTo sid (r_to d)) (Offer (r_body d) sid)]
   \<and> answer_handler sid (Some d) = Inr [Emit (SocketTo sid (r_to d)) (Answer (r_body d) sid)]
   \<and> ice_candidate_handler sid (Some d) =
       Inr [Emit (SocketTo sid (r_to d)) (IceCandidate (r_body d) sid)]
   \<and> (sid \<in> set (handlers s) \<longrightarrow>
        step s (Request sid (OfferReq (r_to d) (r_body d))) =
          (s, [Emit (SocketTo sid (r_to d)) (Offer (r_body d) sid)])
      \<and> step s (Request sid (AnswerReq (r_to d) (r_body d))) =
          (s, [Emit (SocketTo sid (r_to d)) (Answer (r_body d) sid)])
      \<and> step s (Request sid (IceCandidateReq (r_to d) (r_body d))) =
          (s, [Emit (SocketTo sid (r_to d)) (IceCandidate (r_body d) sid)]))"
  by (simp add: offer_handler_def answer_handler_def ice_candidate_handler_def offer_def
      answer_def ice_candidate_def)

theorem relay_forwards_unchecked_witness:
  "''a'' \<in> set (handlers two_online)
   \<and> \<not> js_has (users two_online) ''gone''
   \<and> ice_candidate_handler ''a'' (Some \<lparr>r_to = ''gone'', r_body = ''c1''\<rparr>) =
       Inr [Emit (SocketTo ''a'' ''gone'') (IceCandidate ''c1'' ''a'')]
   \<and> step two_online (Request ''a'' (OfferReq ''gone'' ''c1'')) =
       (two_online, [Emit (SocketTo ''a'' ''gone'') (Offer ''c1'' ''a'')])"
proof -
  have h: "''a'' \<in> set (handlers two_online)"
    by (simp add: two_online_def)
  have n: "\<not> js_has (users two_online) ''gone''"
    by (simp add: two_online_def js_has_def)
  have d: "r_to \<lparr>r_to = ''gone'', r_body = ''c1''\<rparr> = ''gone''"
    "r_body \<lparr>r_to = ''gone'', r_body = ''c1''\<rparr> = ''c1''"
    by simp_all
  note r = relay_forwards_unchecked[of "''a''" "\<lparr>r_to = ''gone'', r_body = ''c1''\<rparr>" two_online]
  show ?thesis
    using r[THEN conjunct2, THEN conjunct2, THEN conjunct1]
      r[THEN conjunct2, THEN conjunct2, THEN conjunct2, THEN mp, OF h, THEN conjunct1]
    unfolding d by (intro conjI h n)
qed

text \<open>
  A relay event that comes without a payload makes its handler throw before it emits
  anything.
\<close>

lemma relay_without_payload_throws:
  "offer_handler sid None = Inl TypeError \<and> answer_handler sid None = Inl TypeError
   \<and> ice_candidate_handler sid None = Inl TypeError"
  by (simp add: offer_handler_def answer_handler_def ice_candidate_handler_def)

text \<open>
  C5 as the specification states it fails: socket \<open>a\<close> relays a candidate to the handle
  \<open>gone\<close>, which is not in the registry; the one event emitted is addressed to \<open>gone\<close>,
  and no error is reported to \<open>a\<close>.
\<close>

theorem relay_unknown_target_counterexample:
  "\<not> js_has (users two_online) ''gone''
   \<and> snd (step two_online (Request ''a'' (IceCandidateReq ''gone'' ''c1''))) =
       [Emit (SocketTo ''a'' ''gone'') (IceCandidate ''c1'' ''a'')]"
  by (simp add: two_online_def js_has_def ice_candidate_def)

text \<open>
  C1, as the code has it. The server keeps no call session. On a socket with its
  handlers installed, \<^verbatim>\<open>accept-call\<close>, \<^verbatim>\<open>reject-call\<close> and \<^verbatim>\<open>end-call\<close> leave the
  server's state as it was, whatever it is and whatever was requested before, and each
  emits its one event (\<^verbatim>\<open>call-accepted\<close>, \<^verbatim>\<open>call-rejected\<close>, \<^verbatim>\<open>call-ended\<close>) to the socket
  id the request names; \<^verbatim>\<open>end-call\<close> without a target, or with the empty string as
  target, emits nothing. No request is refused.
\<close>

theorem call_requests_keep_no_session:
  "sid \<in> set (handlers s) \<Longrightarrow>
     step s (Request sid (AcceptCall to from)) =
       (s, [Emit (IoTo to) (CallAccepted (c_id from) (c_username from) sid)])
   \<and> step s (Request sid (RejectCall to)) =
       (s, [Emit (IoTo to) (CallRejected (Some sid) CallDeclined)])
   \<and> (to \<noteq> [] \<longrightarrow>
        step s (Request sid (EndCall (Some to))) = (s, [Emit (IoTo to) (CallEnded sid)]))
   \<and> step s (Request sid (EndCall (Some []))) = (s, [])
   \<and> step s (Request sid (EndCall None)) = (s, [])"
  by (simp add: accept_call_def reject_call_def end_call_def)

theorem call_requests_keep_no_session_witness:
  "''b'' \<in> set (handlers two_online)
   \<and> step two_online (Request ''b'' (AcceptCall ''a'' bob_caller)) =
       (two_online, [Emit (IoTo ''a'') (CallAccepted 2 (Some ''bob'') ''b'')])
   \<and> step two_online (Request ''b'' (RejectCall ''a'')) =
       (two_online, [Emit (IoTo ''a'') (CallRejected (Some ''b'') CallDeclined)])
   \<and> step two_online (Request ''b'' (EndCall (Some ''a''))) =
       (two_online, [Emit (IoTo ''a'') (CallEnded ''b'')])"
proof -
  have h: "''b'' \<in> set (handlers two_online)"
    by (simp add: two_online_def)
  note r = call_requests_keep_no_session[OF h, of "''a''" bob_caller]
  have c: "c_id bob_caller = 2" "c_username bob_caller = Some ''bob''"
    by (simp_all add: bob_caller_def)
  have n: "''a'' \<noteq> []"
    by simp
  show ?thesis
    using h r[THEN conjunct1] r[THEN conjunct2, THEN conjunct1]
      r[THEN conjunct2, THEN conjunct2, THEN conjunct1, THEN mp, OF n]
    unfolding c by (intro conjI)
qed

text \<open>
  C1 as the specification states it fails: Ann calls Bob, Bob rejects, and Bob's later
  \<^verbatim>\<open>accept-call\<close> for the same call is not refused: \<^verbatim>\<open>call-accepted\<close> goes out to Ann
  after \<^verbatim>\<open>call-rejected\<close>.
\<close>

theorem accept_after_reject_counterexample:
  "run two_online
     [Request ''a'' (InitiateCall 2 ''video'' ann_caller),
      Request ''b'' (RejectCall ''a''),
      Request ''b'' (AcceptCall ''a'' bob_caller)] =
   (two_online,
    [Emit (IoTo ''b'') (IncomingCall 1 (Some ''ann'') ''a'' (Some (Initial ''ann'')) ''video''),
     Emit (IoTo ''a'') (CallRejected (Some ''b'') CallDeclined),
     Emit (IoTo ''a'') (CallAccepted 2 (Some ''bob'') ''b'')])"
  by (simp add: two_online_def initiate_call_def reject_call_def accept_call_def
      find_user_def js_values_def has_id_def ann_entry_def bob_entry_def ann_def bob_def
      ann_caller_def bob_caller_def)

section \<open>ICE candidates on the client\<close>

lemma invoke_get:
  "js_get pcs remote = Some calls \<Longrightarrow> js_get (invoke pcs remote c) remote = Some (calls @ [c])"
  by (simp add: invoke_def js_get_js_set_same)

text \<open>
  C9, as the code has it. The client has no candidate buffer. A truthy candidate (there,
  and not the empty string) from a handle with a peer link is handed to
  \<^verbatim>\<open>addIceCandidate\<close> at once, as the next call on that link, whatever calls came
  before it (a remote description may or may not have been set). A candidate from a
  handle without a peer link, and a falsy candidate (\<^verbatim>\<open>null\<close>, missing, or the empty
  string), change nothing: they are dropped. An answer adds the one call
  \<^verbatim>\<open>setRemoteDescription\<close> to the link, and an offer from a handle without a link creates
  the link with that one call: setting a remote description hands over no candidate.
\<close>

theorem ice_candidate_passed_on_or_dropped:
  "(js_get pcs from = Some calls \<longrightarrow>
      (c \<noteq> [] \<longrightarrow>
         js_get (on_ice_candidate pcs from (Some c)) from = Some (calls @ [AddIceCandidate c]))
    \<and> js_get (on_answer pcs from d) from = Some (calls @ [SetRemoteDescription d])
    \<and> js_get (on_offer pcs from d) from = Some (calls @ [SetRemoteDescription d]))
   \<and> (\<not> js_has pcs from \<longrightarrow>
      on_ice_candidate pcs from (Some c) = pcs
    \<and> on_answer pcs from d = pcs
    \<and> js_get (on_offer pcs from d) from = Some [SetRemoteDescription d])
   \<and> on_ice_candidate pcs from None = pcs
   \<and> on_ice_candidate pcs from (Some []) = pcs"
proof -
  have a: "js_get pcs from = Some calls \<Longrightarrow> js_has pcs from"
    by (simp add: js_has_get)
  have b: "\<not> js_has pcs from \<Longrightarrow>
      js_get (createPeerConnection pcs from False) from = Some []"
    by (simp add: createPeerConnection_def js_get_js_set_same)
  show ?thesis
    using a b
    by (auto simp: on_ice_candidate_def on_answer_def on_offer_def invoke_get)
qed

theorem ice_candidate_passed_on_or_dropped_witness:
  "js_get [(''p'', [CreateOffer])] ''p'' = Some [CreateOffer]
   \<and> ''c1'' \<noteq> []
   \<and> js_get (on_ice_candidate [(''p'', [CreateOffer])] ''p'' (Some ''c1'')) ''p'' =
       Some [CreateOffer, AddIceCandidate ''c1'']
   \<and> js_get (on_answer [(''p'', [CreateOffer])] ''p'' ''sdp'') ''p'' =
       Some [CreateOffer, SetRemoteDescription ''sdp'']
   \<and> \<not> js_has [(''p'', [CreateOffer])] ''q''
   \<and> on_ice_candidate [(''p'', [CreateOffer])] ''q'' (Some ''c1'') = [(''p'', [CreateOffer])]
   \<and> js_get (on_offer [(''p'', [CreateOffer])] ''q'' ''sdp'') ''q'' =
       Some [SetRemoteDescription ''sdp'']
   \<and> on_ice_candidate [(''p'', [CreateOffer])] ''p'' (Some []) = [(''p'', [CreateOffer])]"
proof -
  have h1: "js_get [(''p'', [CreateOffer])] ''p'' = Some [CreateOffer]"
    by (simp add: js_get_def)
  have h2: "\<not> js_has [(''p'', [CreateOffer])] ''q''"
    by (simp add: js_has_def)
  have h3: "''c1'' \<noteq> []"
    by simp
  note r = ice_candidate_passed_on_or_dropped[of "[(''p'', [CreateOffer])]"]
  note p = r[of "''p''" "[CreateOffer]" "''c1''" "''sdp''", THEN conjunct1, THEN mp, OF h1]
  note q = r[of "''q''" "[]" "''c1''" "''sdp''", THEN conjunct2, THEN conjunct1, THEN mp, OF h2]
  have e: "on_ice_candidate [(''p'', [CreateOffer])] ''p'' (Some []) = [(''p'', [CreateOffer])]"
    by (rule r[of "''p''" "[]" "[]" "[]", THEN conjunct2, THEN conjunct2, THEN conjunct2])
  have a1: "js_get (on_ice_candidate [(''p'', [CreateOffer])] ''p'' (Some ''c1'')) ''p'' =
       Some [CreateOffer, AddIceCandidate ''c1'']"
    using p[THEN conjunct1, THEN mp, OF h3] by simp
  have a2: "js_get (on_answer [(''p'', [CreateOffer])] ''p'' ''sdp'') ''p'' =
       Some [CreateOffer, SetRemoteDescription ''sdp'']"
    using p[THEN conjunct2, THEN conjunct1] by simp
  show ?thesis
    by (intro conjI h1 h3 a1 a2 h2 q[THEN conjunct1] q[THEN conjunct2, THEN conjunct2] e)
qed

text \<open>
  C9 as the specification states it fails. A candidate \<open>c1\<close> that reaches a client before
  the offer of the same peer \<open>p\<close> finds no peer link and is dropped, and the offer that
  follows hands nothing over: no candidate is applied, while in the other order \<open>c1\<close>
  is. And on a link whose remote description is still to come (the caller's side, before
  the answer) the candidate is handed to \<^verbatim>\<open>addIceCandidate\<close> at once instead of being
  held back.
\<close>

theorem ice_candidate_not_buffered_counterexample:
  "receive_all [] [OnIceCandidate ''p'' (Some ''c1''), OnOffer ''p'' ''sdp''] =
     [(''p'', [SetRemoteDescription ''sdp''])]
   \<and> receive_all [] [OnOffer ''p'' ''sdp'', OnIceCandidate ''p'' (Some ''c1'')] =
     [(''p'', [SetRemoteDescription ''sdp'', AddIceCandidate ''c1''])]
   \<and> candidates (receive_all [] [OnIceCandidate ''p'' (Some ''c1''), OnOffer ''p'' ''sdp'']) ''p''
       = []
   \<and> candidates (receive_all [] [OnOffer ''p'' ''sdp'', OnIceCandidate ''p'' (Some ''c1'')]) ''p''
       = [''c1'']
   \<and> receive_all [] [OnUserJoinedVoice ''p'', OnIceCandidate ''p'' (Some ''c1'')] =
     [(''p'', [CreateOffer, AddIceCandidate ''c1''])]"
  by (simp add: receive_all_def on_ice_candidate_def on_offer_def createPeerConnection_def
      invoke_def js_has_def js_get_def candidates_def)

section \<open>Disconnect\<close>

lemma filter_absent: "x \<notin> set ms \<Longrightarrow> ms = filter (\<lambda>i. i \<noteq> x) ms"
  by (induction ms) auto

lemma leave_rooms_fst:
  "fst (leave_rooms rs sid) = map (\<lambda>cm. (fst cm, filter (\<lambda>i. i \<noteq> sid) (snd cm))) rs"
  by (induction rs sid rule: leave_rooms.induct)
     (auto simp: set_has_def set_delete_def split: prod.splits intro: filter_absent)

lemma leave_rooms_snd:
  "snd (leave_rooms rs sid) =
     map (\<lambda>cm. Emit (IoTo (''voice-'' @ fst cm)) (UserLeftVoice sid))
       (filter (\<lambda>cm. sid \<in> set (snd cm)) rs)"
  by (induction rs sid rule: leave_rooms.induct)
     (auto simp: set_has_def split: prod.splits)

lemma members_map:
  "members (map (\<lambda>cm. (fst cm, f (snd cm))) rs) c = (if js_has rs c then f (members rs c) else [])"
  by (induction rs) (auto simp: members_def js_get_def js_has_def)

lemma js_keys_map: "js_keys (map (\<lambda>cm. (fst cm, f (snd cm))) rs) = js_keys rs"
  by (simp add: js_keys_def comp_def)

lemma js_has_js_delete: "js_has (js_delete m k) k' = (k' \<noteq> k \<and> js_has m k')"
  by (induction m) (auto simp: js_has_def js_delete_def)

lemma js_keys_js_delete: "js_keys (js_delete m k) = filter (\<lambda>i. i \<noteq> k) (js_keys m)"
  by (induction m) (auto simp: js_keys_def js_delete_def)

lemma disconnect_status_fst:
  "sid \<in> set (closing s) \<Longrightarrow>
   fst (disconnect_status s sid) =
     s\<lparr>users := js_delete (users s) sid, rooms := fst (leave_rooms (rooms s) sid),
       closing := removeAll sid (closing s)\<rparr>"
  by (simp add: disconnect_status_def Let_def split: prod.splits)

lemma disconnect_status_snd:
  "sid \<in> set (closing s) \<Longrightarrow>
   snd (disconnect_status s sid) =
     snd (leave_rooms (rooms s) sid) @ [Emit IoEmit (UserListUpdate (js_values (js_delete (users s) sid)))]"
  by (simp add: disconnect_status_def Let_def split: prod.splits)

lemma not_call_ended_left:
  "\<not> list_ex is_call_ended (map (\<lambda>cm. Emit (IoTo (''voice-'' @ fst cm)) (UserLeftVoice sid)) rs)"
  by (induction rs) auto

text \<open>
  C2, as the code has it. The \<^verbatim>\<open>disconnect\<close> handler of a registered socket changes
  neither table and emits nothing before it suspends. When it resumes it does the rest
  in one step: the registry loses the socket's entry and keeps the others in their
  order; every room keeps its name and its other members in their order, and the socket
  is a member of no room; one \<^verbatim>\<open>user-left-voice\<close> carrying the socket id goes to the
  channel of each room the socket was in, in the order of the rooms, followed by one
  \<^verbatim>\<open>user-list-update\<close> broadcast of the registry as it now is. No \<^verbatim>\<open>call-ended\<close> is
  emitted: the server has no call session to end.
\<close>

theorem disconnect_cleans_registry_and_rooms:
  "(sid \<in> set (handlers s) \<and> js_has (users s) sid \<longrightarrow>
      users (fst (step s (Disconnect sid))) = users s
    \<and> rooms (fst (step s (Disconnect sid))) = rooms s
    \<and> snd (step s (Disconnect sid)) = []
    \<and> sid \<in> set (closing (fst (step s (Disconnect sid)))))
   \<and> (sid \<in> set (closing s) \<longrightarrow>
      \<not> js_has (users (fst (step s (DisconnectStatus sid)))) sid
    \<and> js_keys (users (fst (step s (DisconnectStatus sid)))) =
        filter (\<lambda>i. i \<noteq> sid) (js_keys (users s))
    \<and> js_keys (rooms (fst (step s (DisconnectStatus sid)))) = js_keys (rooms s)
    \<and> (\<forall>c. members (rooms (fst (step s (DisconnectStatus sid)))) c =
              filter (\<lambda>i. i \<noteq> sid) (members (rooms s) c))
    \<and> snd (step s (DisconnectStatus sid)) =
        map (\<lambda>cm. Emit (IoTo (''voice-'' @ fst cm)) (UserLeftVoice sid))
          (filter (\<lambda>cm. sid \<in> set (snd cm)) (rooms s))
        @ [Emit IoEmit (UserListUpdate (js_values (users (fst (step s (DisconnectStatus sid))))))]
    \<and> \<not> list_ex is_call_ended (snd (step s (DisconnectStatus sid))))"
proof (intro conjI impI allI)
  assume a: "sid \<in> set (handlers s) \<and> js_has (users s) sid"
  then show "users (fst (step s (Disconnect sid))) = users s"
    "rooms (fst (step s (Disconnect sid))) = rooms s"
    "snd (step s (Disconnect sid)) = []"
    "sid \<in> set (closing (fst (step s (Disconnect sid))))"
    by (simp_all add: disconnect_def)
next
  assume c: "sid \<in> set (closing s)"
  note f = disconnect_status_fst[OF c]
  note o = disconnect_status_snd[OF c]
  show "\<not> js_has (users (fst (step s (DisconnectStatus sid)))) sid"
    by (simp add: f js_has_js_delete)
  show "js_keys (users (fst (step s (DisconnectStatus sid)))) =
        filter (\<lambda>i. i \<noteq> sid) (js_keys (users s))"
    by (simp add: f js_keys_js_delete)
  show "js_keys (rooms (fst (step s (DisconnectStatus sid)))) = js_keys (rooms s)"
    by (simp add: f leave_rooms_fst js_keys_map)
  show "members (rooms (fst (step s (DisconnectStatus sid)))) c =
              filter (\<lambda>i. i \<noteq> sid) (members (rooms s) c)" for c
    by (simp add: f leave_rooms_fst members_map members_absent)
  show "snd (step s (DisconnectStatus sid)) =
        map (\<lambda>cm. Emit (IoTo (''voice-'' @ fst cm)) (UserLeftVoice sid))
          (filter (\<lambda>cm. sid \<in> set (snd cm)) (rooms s))
        @ [Emit IoEmit (UserListUpdate (js_values (users (fst (step s (DisconnectStatus sid))))))]"
    by (simp add: f o leave_rooms_snd)
  show "\<not> list_ex is_call_ended (snd (step s (DisconnectStatus sid)))"
    using not_call_ended_left[of sid "filter (\<lambda>cm. sid \<in> set (snd cm)) (rooms s)"]
    by (simp add: o leave_rooms_snd)
qed

theorem disconnect_cleans_registry_and_rooms_witness:
  "''a'' \<in> set (handlers in_rooms) \<and> js_has (users in_rooms) ''a''
   \<and> step in_rooms (Disconnect ''a'') =
       (in_rooms\<lparr>handlers := [''b''], closing := [''a'']\<rparr>, [])
   \<and> ''a'' \<in> set (closing (in_rooms\<lparr>handlers := [''b''], closing := [''a'']\<rparr>))
   \<and> js_keys (users (fst (step (in_rooms\<lparr>handlers := [''b''], closing := [''a'']\<rparr>)
        (DisconnectStatus ''a'')))) = [''b'']
   \<and> members (rooms (fst (step (in_rooms\<lparr>handlers := [''b''], closing := [''a'']\<rparr>)
        (DisconnectStatus ''a'')))) ''r2'' = [''b'']
   \<and> snd (step (in_rooms\<lparr>handlers := [''b''], closing := [''a'']\<rparr>) (DisconnectStatus ''a'')) =
       [Emit (IoTo ''voice-r1'') (UserLeftVoice ''a''),
        Emit (IoTo ''voice-r2'') (UserLeftVoice ''a''),
        Emit IoEmit (UserListUpdate [bob_entry ''b''])]"
proof -
  let ?s1 = "in_rooms\<lparr>handlers := [''b''], closing := [''a'']\<rparr>"
  have h1: "''a'' \<in> set (handlers in_rooms) \<and> js_has (users in_rooms) ''a''"
    by (simp add: in_rooms_def two_online_def js_has_def)
  have h2: "''a'' \<in> set (closing ?s1)"
    by simp
  have s1: "step in_rooms (Disconnect ''a'') = (?s1, [])"
    by (simp add: in_rooms_def two_online_def disconnect_def js_has_def)
  have k: "js_keys (users ?s1) = [''a'', ''b'']"
    by (simp add: in_rooms_def two_online_def js_keys_def)
  have m: "members (rooms ?s1) ''r2'' = [''b'', ''a'']"
    by (simp add: in_rooms_def two_online_def members_def js_get_def)
  have r: "rooms ?s1 = [(''r1'', [''a'', ''b'']), (''r2'', [''b'', ''a''])]"
    by (simp add: in_rooms_def)
  note t = disconnect_cleans_registry_and_rooms[of "''a''" ?s1, THEN conjunct2, rule_format, OF h2]
  have u: "users (fst (step ?s1 (DisconnectStatus ''a''))) = [(''b'', bob_entry ''b'')]"
    by (simp add: disconnect_status_fst) (simp add: in_rooms_def two_online_def js_delete_def)
  have k': "js_keys (users (fst (step ?s1 (DisconnectStatus ''a'')))) = [''b'']"
    using t k by simp
  have m': "members (rooms (fst (step ?s1 (DisconnectStatus ''a'')))) ''r2'' = [''b'']"
    using t m by simp
  have o': "snd (step ?s1 (DisconnectStatus ''a'')) =
       [Emit (IoTo ''voice-r1'') (UserLeftVoice ''a''),
        Emit (IoTo ''voice-r2'') (UserLeftVoice ''a''),
        Emit IoEmit (UserListUpdate [bob_entry ''b''])]"
    using t[THEN conjunct2, THEN conjunct2, THEN conjunct2, THEN conjunct2, THEN conjunct1]
    unfolding u r by (simp add: js_values_def)
  show ?thesis
    using h1 h2 s1 k' m' o' by (intro conjI) simp_all
qed

text \<open>
  C2 as the specification states it fails: Ann and Bob share two rooms, Ann calls Bob,
  Bob accepts, Ann disconnects. Bob's rooms are told that Ann left and everyone gets the
  new user list, but no \<^verbatim>\<open>call-ended\<close> goes to Bob.
\<close>

theorem disconnect_in_call_counterexample:
  "snd (run in_rooms
     [Request ''a'' (InitiateCall 2 ''video'' ann_caller),
      Request ''b'' (AcceptCall ''a'' bob_caller),
      Disconnect ''a'', DisconnectStatus ''a'']) =
    [Emit (IoTo ''b'') (IncomingCall 1 (Some ''ann'') ''a'' (Some (Initial ''ann'')) ''video''),
     Emit (IoTo ''a'') (CallAccepted 2 (Some ''bob'') ''b''),
     Emit (IoTo ''voice-r1'') (UserLeftVoice ''a''),
     Emit (IoTo ''voice-r2'') (UserLeftVoice ''a''),
     Emit IoEmit (UserListUpdate [bob_entry ''b''])]
   \<and> \<not> list_ex is_call_ended (snd (run in_rooms
     [Request ''a'' (InitiateCall 2 ''video'' ann_caller),
      Request ''b'' (AcceptCall ''a'' bob_caller),
      Disconnect ''a'', DisconnectStatus ''a'']))"
proof -
  have "snd (run in_rooms
     [Request ''a'' (InitiateCall 2 ''video'' ann_caller),
      Request ''b'' (AcceptCall ''a'' bob_caller),
      Disconnect ''a'', DisconnectStatus ''a'']) =
    [Emit (IoTo ''b'') (IncomingCall 1 (Some ''ann'') ''a'' (Some (Initial ''ann'')) ''video''),
     Emit (IoTo ''a'') (CallAccepted 2 (Some ''bob'') ''b''),
     Emit (IoTo ''voice-r1'') (UserLeftVoice ''a''),
     Emit (IoTo ''voice-r2'') (UserLeftVoice ''a''),
     Emit IoEmit (UserListUpdate [bob_entry ''b''])]"
    by (simp add: in_rooms_def two_online_def initiate_call_def accept_call_def
      find_user_def js_values_def has_id_def ann_entry_def bob_entry_def ann_def bob_def
      ann_caller_def bob_caller_def disconnect_def disconnect_status_def js_has_def
      js_delete_def set_has_def set_delete_def)
  then show ?thesis by simp
qed

section \<open>The online list\<close>

lemma distinct_js_set: "distinct (js_keys m) \<Longrightarrow> distinct (js_keys (js_set m k v))"
proof (induction m k v rule: js_set.induct)
  case (1 k v)
  then show ?case by (simp add: js_keys_def)
next
  case (2 k' v' m k v)
  have "set (js_keys (js_set m k v)) = insert k (set (js_keys m))"
    by (rule js_keys_js_set)
  with 2 show ?case
    by (auto simp: js_keys_def)
qed

lemma list_all_js_set: "list_all P m \<Longrightarrow> P (k, v) \<Longrightarrow> list_all P (js_set m k v)"
  by (induction m k v rule: js_set.induct) auto

lemma handle_users: "users (fst (handle s sid r)) = users s"
  by (cases r) (simp_all add: join_users leave_voice_channel_def)

lemma users_wf_step: "users_wf s \<Longrightarrow> users_wf (fst (step s e))"
proof (cases e)
  case (ConnectLookup sid l)
  assume "users_wf s"
  then show ?thesis
    using ConnectLookup
    by (cases l) (simp_all add: users_wf_def connect_lookup_def distinct_js_set list_all_js_set)
next
  case (ConnectStatus sid resolved)
  assume "users_wf s"
  then show ?thesis
    using ConnectStatus by (simp add: users_wf_def connect_status_def)
next
  case (Request sid r)
  assume "users_wf s"
  then show ?thesis
    using Request by (simp add: users_wf_def handle_users)
next
  case (DmSettled sid userId receiverId msg db)
  assume "users_wf s"
  then show ?thesis
    using DmSettled by simp
next
  case (Disconnect sid)
  assume "users_wf s"
  then show ?thesis
    using Disconnect by (simp add: users_wf_def disconnect_def)
next
  case (DisconnectStatus sid)
  assume "users_wf s"
  then show ?thesis
    using DisconnectStatus
    by (cases "sid \<in> set (closing s)")
       (simp_all add: users_wf_def disconnect_status_fst js_keys_js_delete,
        simp_all add: disconnect_status_def js_delete_def list_all_iff)
qed

lemma run_Cons_fst: "fst (run s (e # es)) = fst (run (fst (step s e)) es)"
  by (simp add: split_def Let_def)

lemma users_wf_run: "users_wf s \<Longrightarrow> users_wf (fst (run s t))"
proof (induction t arbitrary: s)
  case Nil
  then show ?case by simp
next
  case (Cons e t)
  then show ?case
    unfolding run_Cons_fst by (simp add: users_wf_step)
qed

lemma users_wf_init: "users_wf init"
  by (simp add: users_wf_def init_def js_keys_def)

lemma users_wf_values: "users_wf s \<Longrightarrow> map socketId (js_values (users s)) = js_keys (users s)"
  by (simp add: users_wf_def js_values_def js_keys_def list_all_iff)

lemma online_lists_append: "online_lists (xs @ ys) = online_lists xs @ online_lists ys"
  by (induction xs rule: online_lists.induct) simp_all

lemma online_lists_left: "online_lists (map (\<lambda>cm. Emit (IoTo (f cm)) (g cm)) rs) = []"
  by (induction rs) simp_all

lemma online_lists_handle: "online_lists (snd (handle s sid r)) = []"
proof (cases r)
  case (JoinVoiceChannel c u)
  then show ?thesis by (simp add: join_emits)
next
  case (LeaveVoiceChannel c)
  then show ?thesis by (simp add: leave_voice_channel_def)
next
  case (InitiateCall callee kind frm)
  then show ?thesis by (simp add: initiate_call_def split: option.splits)
next
  case (EndCall target)
  then show ?thesis by (simp add: end_call_def split: option.splits)
qed (simp_all add: offer_def answer_def ice_candidate_def accept_call_def reject_call_def)

lemma online_lists_send_dm: "online_lists (send_dm s sid userId receiverId text db) = []"
  by (simp add: send_dm_def split: option.splits prod.splits)

lemma online_lists_step:
  "online_lists (snd (step s e)) =
     (if (\<exists>sid. e = ConnectStatus sid True \<and> sid \<in> set (pending s))
         \<or> (\<exists>sid. e = DisconnectStatus sid \<and> sid \<in> set (closing s))
      then [js_values (users (fst (step s e)))] else [])"
proof (cases e)
  case (ConnectLookup sid l)
  then show ?thesis by (cases l) (simp_all add: connect_lookup_def)
next
  case (ConnectStatus sid resolved)
  then show ?thesis by (simp add: connect_status_def)
next
  case (Request sid r)
  then show ?thesis by (simp add: online_lists_handle)
next
  case (DmSettled sid userId receiverId msg db)
  then show ?thesis by (simp add: online_lists_send_dm)
next
  case (Disconnect sid)
  then show ?thesis by (simp add: disconnect_def)
next
  case (DisconnectStatus sid)
  show ?thesis
  proof (cases "sid \<in> set (closing s)")
    case True
    then show ?thesis
      using DisconnectStatus
      by (simp add: disconnect_status_fst disconnect_status_snd leave_rooms_snd
          online_lists_append online_lists_left)
  next
    case False
    then show ?thesis
      using DisconnectStatus by (simp add: disconnect_status_def)
  qed
qed

text \<open>
  What a broadcast carries. Take the server after any sequence of events, and let it
  handle one more. Every \<^verbatim>\<open>user-list-update\<close> it then broadcasts is a copy of the
  registry table as that event leaves it, one entry per key. A broadcast follows when a
  connection's handler resumes after its status update went through, and when the
  \<^verbatim>\<open>disconnect\<close> handler of a registered socket resumes; no other event broadcasts the
  list.
\<close>

lemma online_list_is_registry:
  assumes "run init t = (s, out)" and "step s e = (s', out')"
  shows "(\<forall>l \<in> set (online_lists out').
            l = js_values (users s') \<and> map socketId l = js_keys (users s')
          \<and> distinct (map socketId l)
          \<and> (\<forall>k. k \<in> set (map socketId l) \<longleftrightarrow> js_has (users s') k))
       \<and> online_lists out' =
           (if (\<exists>sid. e = ConnectStatus sid True \<and> sid \<in> set (pending s))
               \<or> (\<exists>sid. e = DisconnectStatus sid \<and> sid \<in> set (closing s))
            then [js_values (users s')] else [])"
proof -
  have s: "s = fst (run init t)" and s': "s' = fst (step s e)" and o: "out' = snd (step s e)"
    using assms by simp_all
  have "users_wf s"
    unfolding s by (rule users_wf_run[OF users_wf_init])
  then have wf: "users_wf s'"
    unfolding s' by (rule users_wf_step)
  have m: "map socketId (js_values (users s')) = js_keys (users s')"
    by (rule users_wf_values[OF wf])
  have d: "distinct (js_keys (users s'))"
    using wf by (simp add: users_wf_def)
  have ol: "online_lists out' =
           (if (\<exists>sid. e = ConnectStatus sid True \<and> sid \<in> set (pending s))
               \<or> (\<exists>sid. e = DisconnectStatus sid \<and> sid \<in> set (closing s))
            then [js_values (users s')] else [])"
    unfolding o s' by (rule online_lists_step)
  have al: "\<forall>l \<in> set (online_lists out').
            l = js_values (users s') \<and> map socketId l = js_keys (users s')
          \<and> distinct (map socketId l)
          \<and> (\<forall>k. k \<in> set (map socketId l) \<longleftrightarrow> js_has (users s') k)"
    unfolding ol using m d by (simp add: js_has_keys)
  show ?thesis
    by (rule conjI[OF al ol])
qed

text \<open>
  C8 fails on the code. Socket \<open>a\<close> connects and its user lookup resolves, so it is
  registered; it closes while the connection handler is suspended at the status update.
  The \<^verbatim>\<open>disconnect\<close> listener is installed only when that handler has resumed, so the
  event finds no listener and the entry of \<open>a\<close> is never deleted: the broadcast that
  follows lists \<open>a\<close>, and so does the broadcast after Bob connects on \<open>b\<close>. And when
  the status update of a connection is rejected, the connection is registered and no
  list is broadcast at all.
\<close>

theorem closed_socket_stays_listed:
  "run init ([ConnectLookup ''a'' (LookupDone (Some ann)), Disconnect ''a'',
              ConnectStatus ''a'' True] @ online ''b'' bob) =
     (two_online,
      [Emit IoEmit (UserListUpdate [ann_entry ''a'']),
       Emit IoEmit (UserListUpdate [ann_entry ''a'', bob_entry ''b''])])
   \<and> run init [ConnectLookup ''a'' (LookupDone (Some ann)), ConnectStatus ''a'' False] =
     (\<lparr>users = [(''a'', ann_entry ''a'')], rooms = [], pending = [], handlers = [''a''],
       closing = []\<rparr>, [])"
  by (simp add: online_def init_def two_online_def connect_lookup_def connect_status_def
      disconnect_def js_values_def ann_entry_def bob_entry_def)

section \<open>Rooms and the registry\<close>

lemma connected_Cons: "connected (e # t) = connected [e] @ connected t"
  by (cases e) simp_all

lemma lookup_failed_Cons: "lookup_failed (e # t) = lookup_failed [e] @ lookup_failed t"
proof (cases e)
  case (ConnectLookup sid l)
  then show ?thesis by (cases l) simp_all
qed simp_all

lemma members_subset:
  "list_all (\<lambda>cm. set (snd cm) \<subseteq> A) rs \<Longrightarrow> set (members rs c) \<subseteq> A"
  by (induction rs) (auto simp: members_def js_get_def)

lemma consistent_join:
  assumes "consistent F S s" and "sid \<in> set (handlers s)"
  shows "consistent F S (fst (join_voice_channel s sid c u))"
proof -
  let ?A = "set (js_keys (users s)) \<union> set F"
  have r: "list_all (\<lambda>cm. set (snd cm) \<subseteq> ?A) (rooms s)"
    using assms(1) by (simp add: consistent_def)
  have "sid \<in> ?A"
    using assms by (auto simp: consistent_def)
  with members_subset[OF r, of c] have "set (set_add (members (rooms s) c) sid) \<subseteq> ?A"
    by (auto simp: set_add_def)
  with r have "list_all (\<lambda>cm. set (snd cm) \<subseteq> ?A)
      (js_set (rooms s) c (set_add (members (rooms s) c) sid))"
    by (simp add: list_all_js_set)
  then have "list_all (\<lambda>cm. set (snd cm) \<subseteq> ?A) (rooms (fst (join_voice_channel s sid c u)))"
    by (simp add: join_rooms)
  moreover have "users (fst (join_voice_channel s sid c u)) = users s"
    "handlers (fst (join_voice_channel s sid c u)) = handlers s"
    "pending (fst (join_voice_channel s sid c u)) = pending s"
    "closing (fst (join_voice_channel s sid c u)) = closing s"
    by (simp_all add: join_voice_channel_def Let_def)
  ultimately show ?thesis
    using assms(1) by (simp add: consistent_def)
qed

lemma consistent_leave:
  assumes "consistent F S s"
  shows "consistent F S (fst (leave_voice_channel s sid c))"
proof (cases "js_has (rooms s) c")
  case False
  then show ?thesis using assms by (simp add: leave_voice_channel_def)
next
  case True
  let ?A = "set (js_keys (users s)) \<union> set F"
  have r: "list_all (\<lambda>cm. set (snd cm) \<subseteq> ?A) (rooms s)"
    using assms(1) by (simp add: consistent_def)
  from members_subset[OF r, of c] have "set (set_delete (members (rooms s) c) sid) \<subseteq> ?A"
    by (auto simp: set_delete_def)
  with r have "list_all (\<lambda>cm. set (snd cm) \<subseteq> ?A)
      (js_set (rooms s) c (set_delete (members (rooms s) c) sid))"
    by (simp add: list_all_js_set)
  then show ?thesis
    using assms True by (simp add: leave_voice_channel_def consistent_def)
qed

lemma consistent_handle:
  "consistent F S s \<Longrightarrow> sid \<in> set (handlers s) \<Longrightarrow> consistent F S (fst (handle s sid r))"
  by (cases r) (simp_all add: consistent_join consistent_leave)

lemma consistent_disconnect_status:
  assumes "consistent F S s" and "sid \<in> set (closing s)"
  shows "consistent F S (fst (disconnect_status s sid))"
proof -
  let ?A = "set (js_keys (users s)) \<union> set F"
  let ?B = "set (filter (\<lambda>i. i \<noteq> sid) (js_keys (users s))) \<union> set F"
  have "list_all (\<lambda>cm. set (snd cm) \<subseteq> ?A) (rooms s)"
    using assms(1) by (simp add: consistent_def)
  then have r: "list_all (\<lambda>cm. set (snd cm) \<subseteq> ?B)
      (map (\<lambda>cm. (fst cm, filter (\<lambda>i. i \<noteq> sid) (snd cm))) (rooms s))"
    by (auto simp: list_all_iff)
  have h: "sid \<notin> set (handlers s)" and p: "sid \<notin> set (pending s)"
    using assms by (auto simp: consistent_def)
  have hs: "set (handlers s) \<subseteq> ?B"
    using assms(1) h by (auto simp: consistent_def)
  have ps: "set (pending s) \<subseteq> set (filter (\<lambda>i. i \<noteq> sid) (js_keys (users s)))"
    using assms(1) p by (auto simp: consistent_def)
  have rest: "set (handlers s) \<inter> set (removeAll sid (closing s)) = {}"
    "set (pending s) \<inter> set (removeAll sid (closing s)) = {}"
    "set (handlers s) \<inter> set (pending s) = {}"
    "set (handlers s) \<union> set (pending s) \<union> set (removeAll sid (closing s)) \<subseteq> set S"
    using assms(1) by (auto simp: consistent_def)
  show ?thesis
    unfolding disconnect_status_fst[OF assms(2)] consistent_def
    using r hs ps rest by (simp add: leave_rooms_fst js_keys_js_delete)
qed

lemma consistent_step:
  assumes "consistent F S s" and "set (connected [e]) \<inter> set S = {}"
  shows "consistent (F @ lookup_failed [e]) (S @ connected [e]) (fst (step s e))"
proof (cases e)
  case (ConnectLookup sid l)
  then have n: "sid \<notin> set S"
    using assms(2) by simp
  then have n': "sid \<notin> set (handlers s)" "sid \<notin> set (pending s)" "sid \<notin> set (closing s)"
    using assms(1) by (auto simp: consistent_def)
  show ?thesis
  proof (cases l)
    case LookupFailed
    have "list_all (\<lambda>cm. set (snd cm) \<subseteq> insert sid (set (js_keys (users s)) \<union> set F)) (rooms s)"
      using assms(1) by (auto simp: consistent_def list_all_iff)
    then show ?thesis
      using ConnectLookup LookupFailed assms(1) n'
      by (auto simp: consistent_def connect_lookup_def)
  next
    case (LookupDone user)
    have "list_all (\<lambda>cm. set (snd cm) \<subseteq> insert sid (set (js_keys (users s)) \<union> set F)) (rooms s)"
      using assms(1) by (auto simp: consistent_def list_all_iff)
    then show ?thesis
      using ConnectLookup LookupDone assms(1) n'
      by (auto simp: consistent_def connect_lookup_def js_keys_js_set)
  qed
next
  case (ConnectStatus sid resolved)
  then show ?thesis
    using assms(1) by (auto simp: consistent_def connect_status_def)
next
  case (Request sid r)
  then show ?thesis
    using assms(1) by (simp add: consistent_handle)
next
  case (DmSettled sid userId receiverId msg db)
  then show ?thesis
    using assms(1) by simp
next
  case (Disconnect sid)
  then show ?thesis
    using assms(1) by (auto simp: consistent_def disconnect_def)
next
  case (DisconnectStatus sid)
  then show ?thesis
    using assms(1)
    by (cases "sid \<in> set (closing s)")
       (simp_all add: consistent_disconnect_status, simp add: disconnect_status_def)
qed

lemma consistent_run:
  "consistent F S s \<Longrightarrow> distinct (connected t) \<Longrightarrow> set (connected t) \<inter> set S = {} \<Longrightarrow>
   consistent (F @ lookup_failed t) (S @ connected t) (fst (run s t))"
proof (induction t arbitrary: s F S)
  case Nil
  then show ?case by simp
next
  case (Cons e t)
  have c: "connected (e # t) = connected [e] @ connected t"
    by (rule connected_Cons)
  have f: "lookup_failed (e # t) = lookup_failed [e] @ lookup_failed t"
    by (rule lookup_failed_Cons)
  have 1: "consistent (F @ lookup_failed [e]) (S @ connected [e]) (fst (step s e))"
    using Cons.prems(1,3) by (intro consistent_step) (auto simp: c)
  have 2: "distinct (connected t)"
    using Cons.prems(2) by (simp add: c)
  have 3: "set (connected t) \<inter> set (S @ connected [e]) = {}"
    using Cons.prems(2,3) by (auto simp: c)
  from Cons.IH[OF 1 2 3] show ?case
    unfolding run_Cons_fst c f by simp
qed

lemma consistent_init: "consistent [] [] init"
  by (simp add: consistent_def init_def js_keys_def)

text \<open>
  C3, as the code has it. Take any sequence of events in which every connection has a
  socket id of its own. In the state it leads to, every handle in a room's member
  sequence is registered, or belongs to a connection whose user lookup was rejected when
  it connected: such a connection gets its handlers without a registry entry, and can
  join rooms.
\<close>

theorem room_members_registered_or_lookup_failed:
  assumes "fresh_ids t" and "run init t = (s, out)" and "m \<in> set (members (rooms s) c)"
  shows "js_has (users s) m \<or> m \<in> set (lookup_failed t)"
proof -
  have "consistent ([] @ lookup_failed t) ([] @ connected t) (fst (run init t))"
    using assms(1) by (intro consistent_run consistent_init) (simp_all add: fresh_ids_def)
  then have "consistent (lookup_failed t) (connected t) s"
    using assms(2) by simp
  then have "list_all (\<lambda>cm. set (snd cm) \<subseteq> set (js_keys (users s)) \<union> set (lookup_failed t))
      (rooms s)"
    by (simp add: consistent_def)
  from members_subset[OF this, of c] assms(3) show ?thesis
    by (auto simp: js_has_keys)
qed

theorem room_members_registered_or_lookup_failed_witness:
  "fresh_ids (online ''a'' ann @ [ConnectLookup ''x'' LookupFailed,
       Request ''a'' (JoinVoiceChannel ''r'' 1), Request ''x'' (JoinVoiceChannel ''r'' 9)])
   \<and> fst (run init (online ''a'' ann @ [ConnectLookup ''x'' LookupFailed,
       Request ''a'' (JoinVoiceChannel ''r'' 1), Request ''x'' (JoinVoiceChannel ''r'' 9)])) =
     \<lparr>users = [(''a'', ann_entry ''a'')], rooms = [(''r'', [''a'', ''x''])], pending = [],
      handlers = [''x'', ''a''], closing = []\<rparr>
   \<and> js_has [(''a'', ann_entry ''a'')] ''a''
   \<and> ''x'' \<in> set (lookup_failed (online ''a'' ann @ [ConnectLookup ''x'' LookupFailed,
       Request ''a'' (JoinVoiceChannel ''r'' 1), Request ''x'' (JoinVoiceChannel ''r'' 9)]))"
proof -
  let ?t = "online ''a'' ann @ [ConnectLookup ''x'' LookupFailed,
       Request ''a'' (JoinVoiceChannel ''r'' 1), Request ''x'' (JoinVoiceChannel ''r'' 9)]"
  let ?s = "\<lparr>users = [(''a'', ann_entry ''a'')], rooms = [(''r'', [''a'', ''x''])], pending = [],
      handlers = [''x'', ''a''], closing = []\<rparr>"
  let ?out = "snd (run init ?t)"
  have h1: "fresh_ids ?t"
    by (simp add: fresh_ids_def online_def)
  have s: "fst (run init ?t) = ?s"
    by (simp add: online_def init_def connect_lookup_def connect_status_def ann_entry_def
        join_voice_channel_def js_has_def js_get_def members_def set_add_def Let_def)
  then have h2: "run init ?t = (?s, ?out)"
    by (simp add: prod_eq_iff)
  have ma: "''a'' \<in> set (members (rooms ?s) ''r'')" and mx: "''x'' \<in> set (members (rooms ?s) ''r'')"
    by (simp_all add: members_def js_get_def)
  have nx: "\<not> js_has (users ?s) ''x''" and na: "''a'' \<notin> set (lookup_failed ?t)"
    by (simp_all add: js_has_def online_def)
  from room_members_registered_or_lookup_failed[OF h1 h2 ma] na
  have a: "js_has [(''a'', ann_entry ''a'')] ''a''"
    by simp
  from room_members_registered_or_lookup_failed[OF h1 h2 mx] nx
  have x: "''x'' \<in> set (lookup_failed ?t)"
    by simp
  show ?thesis
    using h1 s a x by (intro conjI)
qed

text \<open>
  C3 as the specification states it fails: the user lookup of connection \<open>x\<close> is
  rejected, \<open>x\<close> joins room \<open>r\<close> and later disconnects. It was never in the registry,
  and it stays in the room's member sequence: the cleanup on disconnect runs for
  registered sockets only.
\<close>

theorem room_member_unregistered_counterexample:
  "fst (run init [ConnectLookup ''x'' LookupFailed, Request ''x'' (JoinVoiceChannel ''r'' 9)]) =
     \<lparr>users = [], rooms = [(''r'', [''x''])], pending = [], handlers = [''x''], closing = []\<rparr>
   \<and> fst (run init [ConnectLookup ''x'' LookupFailed, Request ''x'' (JoinVoiceChannel ''r'' 9),
        Disconnect ''x'', DisconnectStatus ''x'']) =
     \<lparr>users = [], rooms = [(''r'', [''x''])], pending = [], handlers = [], closing = []\<rparr>
   \<and> ''x'' \<in> set (members [(''r'', [''x''])] ''r'')
   \<and> \<not> js_has ([] :: (socket_id, entry) js_map) ''x''"
  by (simp add: init_def connect_lookup_def join_voice_channel_def js_has_def js_get_def
      members_def set_add_def Let_def disconnect_def disconnect_status_def)

end
